theory Spec2Isabelle
  imports Main "HOL-Library.Word"
begin

section \<open>Go values: bytes, slices, errors and panics\<close>

text \<open>
  The exporter is a Go program. A \<open>byte\<close> is an 8-bit word and a \<open>[]byte\<close> slice is
  modelled by its contents, a list of bytes. A Go function that returns an \<open>error\<close>
  returns \<open>error option\<close> here (\<open>None\<close> is \<open>nil\<close>); a run-time panic (an index or a
  slice bound out of range) is the separate outcome \<open>Panic\<close>, so that every way a call
  can end is a value of the model.
\<close>

type_synonym byte = "8 word"

datatype error =
    ErrUnexpectedEOF              \<comment> \<open>\<open>io.ErrUnexpectedEOF\<close>\<close>
  | ErrDeadlineExceeded           \<comment> \<open>a socket read that ran into its read deadline\<close>
  | ErrIO string                  \<comment> \<open>any other error of the socket or of a library\<close>
  | Errorf string error           \<comment> \<open>\<open>fmt.Errorf("<msg>: %v", err)\<close>\<close>

datatype panic = IndexOutOfRange | SliceBoundsOutOfRange

datatype 'a exec = Panic panic | Returns 'a

definition exec_bind :: "'a exec \<Rightarrow> ('a \<Rightarrow> 'b exec) \<Rightarrow> 'b exec" where
  "exec_bind m f = (case m of Panic p \<Rightarrow> Panic p | Returns x \<Rightarrow> f x)"

text \<open>\<open>make([]byte, n)\<close>: a fresh slice of \<open>n\<close> zero bytes.\<close>

definition make_bytes :: "nat \<Rightarrow> byte list" where
  "make_bytes n = replicate n 0"

text \<open>\<open>b[i]\<close> as a value: panics when \<open>i\<close> is not below \<open>len(b)\<close>.\<close>

definition index :: "byte list \<Rightarrow> nat \<Rightarrow> byte exec" where
  "index b i = (if i < length b then Returns (b ! i) else Panic IndexOutOfRange)"

text \<open>\<open>b[i] = v\<close>: panics when \<open>i\<close> is not below \<open>len(b)\<close>.\<close>

definition store :: "byte list \<Rightarrow> nat \<Rightarrow> byte \<Rightarrow> byte list exec" where
  "store b i v = (if i < length b then Returns (b[i := v]) else Panic IndexOutOfRange)"

text \<open>\<open>b[lo:]\<close>: panics when \<open>lo\<close> exceeds \<open>len(b)\<close>; \<open>b[len(b):]\<close> is the empty slice.\<close>

definition slice_from :: "byte list \<Rightarrow> nat \<Rightarrow> byte list exec" where
  "slice_from b lo = (if lo \<le> length b then Returns (drop lo b) else Panic SliceBoundsOutOfRange)"

text \<open>\<open>b[lo:hi]\<close>: panics unless \<open>lo \<le> hi \<le> len(b)\<close> (capacity equals length for
  every slice this program cuts).\<close>

definition slice :: "byte list \<Rightarrow> nat \<Rightarrow> nat \<Rightarrow> byte list exec" where
  "slice b lo hi =
     (if lo \<le> hi \<and> hi \<le> length b then Returns (take (hi - lo) (drop lo b))
      else Panic SliceBoundsOutOfRange)"

text \<open>\<open>copy(dst, src)\<close> overwrites the first \<open>min(len(dst), len(src))\<close> elements of
  \<open>dst\<close> and leaves the rest; the result is the new contents of \<open>dst\<close>.\<close>

definition copy :: "byte list \<Rightarrow> byte list \<Rightarrow> byte list" where
  "copy dst src = take (length dst) src @ drop (length src) dst"

section \<open>The protocol constants\<close>

definition hpVersion :: byte where "hpVersion = 0x00"
definition nwInfoReq :: "byte \<times> byte" where "nwInfoReq = (0xA0, 0x38)"
definition nwInfoCnf :: "byte \<times> byte" where "nwInfoCnf = (0xA0, 0x39)"
definition hpVendor :: "byte \<times> byte \<times> byte" where "hpVendor = (0x00, 0xB0, 0x52)"
definition etherType :: "16 word" where "etherType = 0x88E1"

text \<open>\<open>time.Second\<close>, a \<open>time.Duration\<close> counted in nanoseconds.\<close>

definition time_Second :: nat where "time_Second = 1000000000"

section \<open>HomeplugFrame and its codec\<close>

text \<open>
  The fixed-size arrays \<open>[1]byte\<close>, \<open>[2]byte\<close> and \<open>[3]byte\<close> of the struct are a byte,
  a pair and a triple: the Go type fixes their length. \<open>Payload\<close> is a slice; a nil
  payload and an empty one are both the empty list, as both have length 0 and no bytes.
\<close>

record HomeplugFrame =
  Version :: byte
  MMEType :: "byte \<times> byte"
  Vendor :: "byte \<times> byte \<times> byte"
  Payload :: "byte list"

definition HomeplugFrame_length :: "HomeplugFrame \<Rightarrow> nat" where
  "HomeplugFrame_length h = 6 + length (Payload h)"

text \<open>
  \<open>read\<close> fills the caller's buffer \<open>b\<close> in place, statement by statement; the model
  returns the buffer's new contents with the two results of the Go function.
\<close>

definition HomeplugFrame_read ::
  "HomeplugFrame \<Rightarrow> byte list \<Rightarrow> (byte list \<times> nat \<times> error option) exec" where
  "HomeplugFrame_read h b =
     exec_bind (store b 0 (Version h)) (\<lambda>b.
     exec_bind (store b 1 (snd (MMEType h))) (\<lambda>b.
     exec_bind (store b 2 (fst (MMEType h))) (\<lambda>b.
     exec_bind (store b 3 (fst (Vendor h))) (\<lambda>b.
     exec_bind (store b 4 (fst (snd (Vendor h)))) (\<lambda>b.
     exec_bind (store b 5 (snd (snd (Vendor h)))) (\<lambda>b.
     exec_bind (slice_from b 6) (\<lambda>dst.
     let b = take 6 b @ copy dst (Payload h)
     in Returns (b, length b, None))))))))"

definition HomeplugFrame_MarshalBinary :: "HomeplugFrame \<Rightarrow> (byte list \<times> error option) exec" where
  "HomeplugFrame_MarshalBinary h =
     exec_bind (HomeplugFrame_read h (make_bytes (HomeplugFrame_length h)))
       (\<lambda>(b, n, err). Returns (b, err))"

text \<open>
  \<open>UnmarshalBinary\<close> writes through its receiver \<open>h\<close>; the model takes the receiver's
  old value and returns the new one with the error. On the error path the receiver is
  untouched.
\<close>

definition HomeplugFrame_UnmarshalBinary ::
  "HomeplugFrame \<Rightarrow> byte list \<Rightarrow> (HomeplugFrame \<times> error option) exec" where
  "HomeplugFrame_UnmarshalBinary h b =
     (if length b < 6 then Returns (h, Some ErrUnexpectedEOF)
      else
        exec_bind (slice_from b 6) (\<lambda>src.
        let bb = copy (make_bytes (length b - 6)) src in
        exec_bind (index b 0) (\<lambda>v. let h = h\<lparr>Version := v\<rparr> in
        exec_bind (index b 1) (\<lambda>v. let h = h\<lparr>MMEType := (fst (MMEType h), v)\<rparr> in
        exec_bind (index b 2) (\<lambda>v. let h = h\<lparr>MMEType := (v, snd (MMEType h))\<rparr> in
        exec_bind (index b 3) (\<lambda>v. let h = h\<lparr>Vendor := (v, snd (Vendor h))\<rparr> in
        exec_bind (index b 4) (\<lambda>v.
          let h = h\<lparr>Vendor := (fst (Vendor h), v, snd (snd (Vendor h)))\<rparr> in
        exec_bind (index b 5) (\<lambda>v.
          let h = h\<lparr>Vendor := (fst (Vendor h), fst (snd (Vendor h)), v)\<rparr> in
        Returns (h\<lparr>Payload := bb\<rparr>, None)))))))))"

section \<open>The network info payload\<close>

text \<open>
  \<open>NetworkID\<close> is a \<open>[7]byte\<close> array, kept as a list that always has seven elements
  (its zero value has, and \<open>copy\<close> preserves the length of its destination).
  \<open>net.HardwareAddr\<close> is a byte slice. \<open>CCoAddress\<close>, \<open>Address\<close> and \<open>BridgedAddress\<close>
  are cut from the input buffer without copying; the exporter never writes to a payload
  after decoding it, so the model keeps their contents. Both structs of the source have
  a field \<open>TEI\<close>; the station's is \<open>STEI\<close> here.
\<close>

record HomeplugNetworkStatus =
  NetworkID :: "byte list"
  ShortID :: byte
  TEI :: byte
  Role :: byte
  CCoAddress :: "byte list"
  CCoTEI :: byte

record HomeplugStationStatus =
  Address :: "byte list"
  STEI :: byte
  BridgedAddress :: "byte list"
  TxRate :: byte
  RxRate :: byte

record HomeplugNetworkInfo =
  Networks :: "HomeplugNetworkStatus list"
  Stations :: "HomeplugStationStatus list"

text \<open>The zero values that \<open>var ns HomeplugNetworkStatus\<close>, \<open>var ss HomeplugStationStatus\<close>,
  \<open>var n HomeplugNetworkInfo\<close> and \<open>var h HomeplugFrame\<close> declare.\<close>

definition zero_HomeplugNetworkStatus :: HomeplugNetworkStatus where
  "zero_HomeplugNetworkStatus =
     \<lparr>NetworkID = replicate 7 0, ShortID = 0, TEI = 0, Role = 0, CCoAddress = [], CCoTEI = 0\<rparr>"

definition zero_HomeplugStationStatus :: HomeplugStationStatus where
  "zero_HomeplugStationStatus =
     \<lparr>Address = [], STEI = 0, BridgedAddress = [], TxRate = 0, RxRate = 0\<rparr>"

definition zero_HomeplugNetworkInfo :: HomeplugNetworkInfo where
  "zero_HomeplugNetworkInfo = \<lparr>Networks = [], Stations = []\<rparr>"

definition zero_HomeplugFrame :: HomeplugFrame where
  "zero_HomeplugFrame = \<lparr>Version = 0, MMEType = (0, 0), Vendor = (0, 0, 0), Payload = []\<rparr>"

definition HomeplugNetworkStatus_UnmarshalBinary ::
  "HomeplugNetworkStatus \<Rightarrow> byte list \<Rightarrow> (HomeplugNetworkStatus \<times> nat \<times> error option) exec" where
  "HomeplugNetworkStatus_UnmarshalBinary s b =
     (if length b < 17 then Returns (s, 0, Some ErrUnexpectedEOF)
      else
        exec_bind (slice b 0 7) (\<lambda>src. let s = s\<lparr>NetworkID := copy (NetworkID s) src\<rparr> in
        exec_bind (index b 7) (\<lambda>v. let s = s\<lparr>ShortID := v\<rparr> in
        exec_bind (index b 8) (\<lambda>v. let s = s\<lparr>TEI := v\<rparr> in
        exec_bind (index b 9) (\<lambda>v. let s = s\<lparr>Role := v\<rparr> in
        exec_bind (slice b 10 16) (\<lambda>a. let s = s\<lparr>CCoAddress := a\<rparr> in
        exec_bind (index b 16) (\<lambda>v. let s = s\<lparr>CCoTEI := v\<rparr> in
        Returns (s, 17, None))))))))"

definition HomeplugStationStatus_UnmarshalBinary ::
  "HomeplugStationStatus \<Rightarrow> byte list \<Rightarrow> (HomeplugStationStatus \<times> nat \<times> error option) exec" where
  "HomeplugStationStatus_UnmarshalBinary s b =
     (if length b < 15 then Returns (s, 0, Some ErrUnexpectedEOF)
      else
        exec_bind (slice b 0 6) (\<lambda>a. let s = s\<lparr>Address := a\<rparr> in
        exec_bind (index b 6) (\<lambda>v. let s = s\<lparr>STEI := v\<rparr> in
        exec_bind (slice b 7 13) (\<lambda>a. let s = s\<lparr>BridgedAddress := a\<rparr> in
        exec_bind (index b 13) (\<lambda>v. let s = s\<lparr>TxRate := v\<rparr> in
        exec_bind (index b 14) (\<lambda>v. let s = s\<lparr>RxRate := v\<rparr> in
        Returns (s, 15, None)))))))"

text \<open>
  The two loops of \<open>HomeplugNetworkInfo.UnmarshalBinary\<close>. Each carries the loop counter
  \<open>i\<close>, the offset (\<open>o\<close> in the source) and the receiver \<open>n\<close>, and returns the offset
  and the receiver with the error that ended it, if any: the source returns from inside
  the loop with what it has appended to \<open>n\<close> so far.
\<close>

function networks_loop ::
  "nat \<Rightarrow> nat \<Rightarrow> byte list \<Rightarrow> nat \<Rightarrow> HomeplugNetworkInfo
     \<Rightarrow> (nat \<times> HomeplugNetworkInfo \<times> error option) exec" where
  "networks_loop i num_networks b off n =
     (if i < num_networks then
        (case slice_from b off of
           Panic p \<Rightarrow> Panic p
         | Returns rest \<Rightarrow>
             (case HomeplugNetworkStatus_UnmarshalBinary zero_HomeplugNetworkStatus rest of
                Panic p \<Rightarrow> Panic p
              | Returns (ns, sz, Some err) \<Rightarrow> Returns (off, n, Some err)
              | Returns (ns, sz, None) \<Rightarrow>
                  networks_loop (i + 1) num_networks b (off + sz)
                    (n\<lparr>Networks := Networks n @ [ns]\<rparr>)))
      else Returns (off, n, None))"
  by pat_completeness auto
termination
  by (relation "measure (\<lambda>(i, num_networks, b, off, n). num_networks - i)") auto

function stations_loop ::
  "nat \<Rightarrow> nat \<Rightarrow> byte list \<Rightarrow> nat \<Rightarrow> HomeplugNetworkInfo
     \<Rightarrow> (nat \<times> HomeplugNetworkInfo \<times> error option) exec" where
  "stations_loop i num_stations b off n =
     (if i < num_stations then
        (case slice_from b off of
           Panic p \<Rightarrow> Panic p
         | Returns rest \<Rightarrow>
             (case HomeplugStationStatus_UnmarshalBinary zero_HomeplugStationStatus rest of
                Panic p \<Rightarrow> Panic p
              | Returns (ss, sz, Some err) \<Rightarrow> Returns (off, n, Some err)
              | Returns (ss, sz, None) \<Rightarrow>
                  stations_loop (i + 1) num_stations b (off + sz)
                    (n\<lparr>Stations := Stations n @ [ss]\<rparr>)))
      else Returns (off, n, None))"
  by pat_completeness auto
termination
  by (relation "measure (\<lambda>(i, num_stations, b, off, n). num_stations - i)") auto

definition HomeplugNetworkInfo_UnmarshalBinary ::
  "HomeplugNetworkInfo \<Rightarrow> byte list \<Rightarrow> (HomeplugNetworkInfo \<times> error option) exec" where
  "HomeplugNetworkInfo_UnmarshalBinary n b =
     (let off = 0 in
      exec_bind (index b off) (\<lambda>c. let num_networks = unat c; off = off + 1 in
      exec_bind (networks_loop 0 num_networks b off n) (\<lambda>(off, n, err).
        case err of
          Some e \<Rightarrow> Returns (n, Some e)
        | None \<Rightarrow>
            exec_bind (index b off) (\<lambda>c. let num_stations = unat c; off = off + 1 in
            exec_bind (stations_loop 0 num_stations b off n) (\<lambda>(off, n, err).
              Returns (n, err))))))"

section \<open>Rate conversion in Exporter.collect\<close>

text \<open>
  \<open>uint64(station.TxRate) * 1024 * 1024 / 8\<close>: the \<open>uint8\<close> rate code is widened to
  64 bits, multiplied twice (wrapping at 64 bits, as Go does) and divided, left to right.
  The metric then converts this integer with \<open>float64(...)\<close>.
\<close>

definition rate_bytes :: "byte \<Rightarrow> 64 word" where
  "rate_bytes code = (ucast code :: 64 word) * 1024 * 1024 div 8"


section \<open>The link: the raw socket and the Ethernet library\<close>

text \<open>
  \<open>ethernet.Frame\<close> with its \<open>MarshalBinary\<close> and \<open>UnmarshalBinary\<close>, and the socket's
  \<open>WriteTo\<close>, belong to libraries outside the repository. They are parameters of the
  model, collected in a record: each is a function from its arguments to what the call
  returns. The library frame's \<open>Payload\<close> field is \<open>EthPayload\<close> here.
\<close>

record ethernet_Frame =
  Destination :: "byte list"
  Source :: "byte list"
  EtherType :: "16 word"
  EthPayload :: "byte list"

record link =
  ethernet_MarshalBinary :: "ethernet_Frame \<Rightarrow> byte list \<times> error option"
  ethernet_UnmarshalBinary :: "byte list \<Rightarrow> ethernet_Frame \<times> error option"
  conn_WriteTo :: "byte list \<Rightarrow> byte list \<Rightarrow> error option"

text \<open>
  \<open>write_homeplug\<close>: \<open>hwaddr\<close> is \<open>iface.HardwareAddr\<close>. The request frame is built
  without a payload (a nil slice, of length 0).
\<close>

definition write_homeplug :: "link \<Rightarrow> byte list \<Rightarrow> byte list \<Rightarrow> error option exec" where
  "write_homeplug L hwaddr dest =
     (let h = \<lparr>Version = hpVersion, MMEType = nwInfoReq, Vendor = hpVendor, Payload = []\<rparr> in
      exec_bind (HomeplugFrame_MarshalBinary h) (\<lambda>(b, err).
        case err of
          Some e \<Rightarrow> Returns (Some (Errorf ''failed to marshal homeplug frame'' e))
        | None \<Rightarrow>
            (let f = \<lparr>Destination = dest, Source = hwaddr, EtherType = etherType,
                      EthPayload = b\<rparr>;
                 a = dest
             in case ethernet_MarshalBinary L f of
                  (b, Some e) \<Rightarrow> Returns (Some (Errorf ''failed to marshal ethernet frame'' e))
                | (b, None) \<Rightarrow>
                    (case conn_WriteTo L b a of
                       Some e \<Rightarrow> Returns (Some (Errorf ''failed to send message'' e))
                     | None \<Rightarrow> Returns None))))"

text \<open>
  \<open>read_homeplug\<close> loops on \<open>conn.ReadFrom\<close>. What the socket hands to the successive
  calls is the input of the model: \<open>ReadOk bs\<close> for a read that filled \<open>b[:n]\<close> with
  \<open>bs\<close>, \<open>ReadErr e\<close> for a read that returned the error \<open>e\<close> (a read that ran into the
  deadline set just before it returns \<open>ErrDeadlineExceeded\<close>). The result is the list of
  frames sent on the channel, in order, and whether the loop has ended (\<open>Terminated\<close>)
  or is waiting for the next read when the given reads are used up (\<open>Reading\<close>).
  Sending on the channel is taken never to block.
\<close>

datatype read_result = ReadOk "byte list" | ReadErr error

datatype task_state = Reading | Terminated

fun read_homeplug :: "link \<Rightarrow> read_result list \<Rightarrow> (HomeplugFrame list \<times> task_state) exec" where
  "read_homeplug L [] = Returns ([], Reading)"
| "read_homeplug L (ReadErr err # reads) = Returns ([], Terminated)"
| "read_homeplug L (ReadOk bs # reads) =
     (case ethernet_UnmarshalBinary L bs of
        (f, Some err) \<Rightarrow> read_homeplug L reads
      | (f, None) \<Rightarrow>
          (case HomeplugFrame_UnmarshalBinary zero_HomeplugFrame (EthPayload f) of
             Panic p \<Rightarrow> Panic p
           | Returns (h, Some err) \<Rightarrow> read_homeplug L reads
           | Returns (h, None) \<Rightarrow>
               (case read_homeplug L reads of
                  Panic p \<Rightarrow> Panic p
                | Returns (hs, st) \<Rightarrow> Returns (h # hs, st))))"

section \<open>The collection cycle\<close>

text \<open>
  The first case of the \<open>select\<close> in \<open>get_homeplug_netinfo\<close>: a frame \<open>h\<close> taken from
  the channel. A panic of the payload decoder is not recovered in the source, so it ends
  the cycle with the panic.
\<close>

definition recv_case :: "HomeplugFrame \<Rightarrow> HomeplugNetworkInfo list \<Rightarrow> HomeplugNetworkInfo list exec" where
  "recv_case h ni =
     (if MMEType h = nwInfoCnf then
        exec_bind (HomeplugNetworkInfo_UnmarshalBinary zero_HomeplugNetworkInfo (Payload h))
          (\<lambda>(n, err). case err of Some e \<Rightarrow> Returns ni | None \<Rightarrow> Returns (ni @ [n]))
      else Returns ni)"

text \<open>
  The loop \<open>ChanLoop\<close>. Every iteration evaluates \<open>time.After(time.Second)\<close> anew, so each
  \<open>select\<close> waits for a frame for at most one second, counted from the start of that
  iteration. The frames the receive task delivers are given with their timing: the
  element \<open>(d, h)\<close> says that the next frame \<open>h\<close> is ready on the channel \<open>d\<close> nanoseconds
  after the \<open>select\<close> began; after the last element no frame arrives any more. The
  \<open>select\<close> takes the frame when it is ready before the timer fires (\<open>d < time_Second\<close>)
  and the timer case otherwise. The last argument and the second result accumulate the
  time spent waiting in \<open>select\<close>; handling a frame is taken to cost no time.
\<close>

fun ChanLoop ::
  "(nat \<times> HomeplugFrame) list \<Rightarrow> HomeplugNetworkInfo list \<Rightarrow> nat
     \<Rightarrow> (HomeplugNetworkInfo list \<times> nat) exec" where
  "ChanLoop [] ni t = Returns (ni, t + time_Second)"
| "ChanLoop ((d, h) # frames) ni t =
     (if d < time_Second then
        (case recv_case h ni of
           Panic p \<Rightarrow> Panic p
         | Returns ni \<Rightarrow> ChanLoop frames ni (t + d))
      else Returns (ni, t + time_Second))"

text \<open>
  \<open>get_homeplug_netinfo\<close> returns a slice and an error. The slice is \<open>None\<close> for \<open>nil\<close>
  and \<open>Some ni\<close> otherwise; the third component is the time spent waiting for frames.
  The receive task started by \<open>go read_homeplug(...)\<close> is represented by the frames it
  delivers.
\<close>

definition get_homeplug_netinfo ::
  "link \<Rightarrow> byte list \<Rightarrow> byte list \<Rightarrow> (nat \<times> HomeplugFrame) list
     \<Rightarrow> (HomeplugNetworkInfo list option \<times> error option \<times> nat) exec" where
  "get_homeplug_netinfo L hwaddr dest frames =
     (let ni = [] in
      exec_bind (write_homeplug L hwaddr dest) (\<lambda>err.
        case err of
          Some e \<Rightarrow> Returns (None, Some (Errorf ''write_homeplug failed'' e), 0)
        | None \<Rightarrow>
            exec_bind (ChanLoop frames ni 0) (\<lambda>(ni, t). Returns (Some ni, None, t))))"

text \<open>
  Two instances of the link, to run the model on concrete input. \<open>untagged_link\<close> frames
  as Ethernet II without a VLAN tag (destination, source, EtherType, payload) and its
  socket accepts every write; \<open>down_link\<close> differs in that its socket refuses every write.
\<close>

definition untagged_MarshalBinary :: "ethernet_Frame \<Rightarrow> byte list \<times> error option" where
  "untagged_MarshalBinary f =
     (Destination f @ Source f @
        [ucast (drop_bit 8 (EtherType f)), ucast (EtherType f)] @ EthPayload f, None)"

definition untagged_UnmarshalBinary :: "byte list \<Rightarrow> ethernet_Frame \<times> error option" where
  "untagged_UnmarshalBinary b =
     (if length b < 14
      then (\<lparr>Destination = [], Source = [], EtherType = 0, EthPayload = []\<rparr>,
            Some ErrUnexpectedEOF)
      else (\<lparr>Destination = take 6 b, Source = take 6 (drop 6 b),
              EtherType = push_bit 8 (ucast (b ! 12)) + ucast (b ! 13),
              EthPayload = drop 14 b\<rparr>, None))"

definition untagged_link :: link where
  "untagged_link =
     \<lparr>ethernet_MarshalBinary = untagged_MarshalBinary,
      ethernet_UnmarshalBinary = untagged_UnmarshalBinary,
      conn_WriteTo = (\<lambda>b a. None)\<rparr>"

definition down_link :: link where
  "down_link = untagged_link\<lparr>conn_WriteTo := (\<lambda>b a. Some (ErrIO ''network is down''))\<rparr>"

section \<open>Sample inputs\<close>

text \<open>
  A confirm payload with one network (short id 1, TEI 2) and one station (TEI 4, rate
  codes 100 and 50), the confirm frame that carries it, the same frame in an untagged
  Ethernet packet, and a confirm frame without any payload.
\<close>

definition sample_payload :: "byte list" where
  "sample_payload =
     [1,
      1, 2, 3, 4, 5, 6, 7, 1, 2, 0, 0x00, 0xB0, 0x52, 0x00, 0x00, 0x01, 3,
      1,
      0x00, 0xB0, 0x52, 0x00, 0x00, 0x02, 4, 0, 0, 0, 0, 0, 0, 100, 50]"

definition sample_confirm :: HomeplugFrame where
  "sample_confirm =
     \<lparr>Version = 0x00, MMEType = (0xA0, 0x39), Vendor = (0x00, 0xB0, 0x52),
      Payload = sample_payload\<rparr>"

definition sample_packet :: "byte list" where
  "sample_packet =
     [0x02, 0x00, 0x00, 0x00, 0x00, 0x01, 0x00, 0xB0, 0x52, 0x00, 0x00, 0x02, 0x88, 0xE1,
      0x00, 0x39, 0xA0, 0x00, 0xB0, 0x52] @ sample_payload"

definition empty_confirm :: HomeplugFrame where
  "empty_confirm =
     \<lparr>Version = 0x00, MMEType = (0xA0, 0x39), Vendor = (0x00, 0xB0, 0x52), Payload = []\<rparr>"

section \<open>Closed forms used in the proofs\<close>

text \<open>
  The record that the network decoder, started from the zero value, reads at offset
  \<open>off\<close> of a buffer, and the same for the station decoder. They are what the lemmas
  \<open>HomeplugNetworkStatus_UnmarshalBinary_drop\<close> and \<open>HomeplugStationStatus_UnmarshalBinary_drop\<close>
  prove the decoders return.
\<close>

definition network_at :: "byte list \<Rightarrow> nat \<Rightarrow> HomeplugNetworkStatus" where
  "network_at b off =
     \<lparr>NetworkID = take 7 (drop off b), ShortID = b ! (off + 7), TEI = b ! (off + 8),
      Role = b ! (off + 9), CCoAddress = take 6 (drop (off + 10) b), CCoTEI = b ! (off + 16)\<rparr>"

definition station_at :: "byte list \<Rightarrow> nat \<Rightarrow> HomeplugStationStatus" where
  "station_at b off =
     \<lparr>Address = take 6 (drop off b), STEI = b ! (off + 6),
      BridgedAddress = take 6 (drop (off + 7) b), TxRate = b ! (off + 13),
      RxRate = b ! (off + 14)\<rparr>"

text \<open>Handling a list of frames one after the other, as the first case of the \<open>select\<close>
  does when each of them is taken from the channel.\<close>

fun recv_all :: "HomeplugFrame list \<Rightarrow> HomeplugNetworkInfo list \<Rightarrow> HomeplugNetworkInfo list exec" where
  "recv_all [] ni = Returns ni"
| "recv_all (h # hs) ni =
     (case recv_case h ni of Panic p \<Rightarrow> Panic p | Returns ni' \<Rightarrow> recv_all hs ni')"

section \<open>Properties of the frame codec\<close>

lemma make_bytes_six: "make_bytes (6 + m) = [0, 0, 0, 0, 0, 0] @ make_bytes m"
  by (simp add: make_bytes_def numeral_eq_Suc)

lemma copy_make: "copy (make_bytes (length p)) p = p"
  by (simp add: copy_def make_bytes_def)

lemma HomeplugFrame_read_make:
  "HomeplugFrame_read h (make_bytes (6 + length (Payload h))) =
     Returns ([Version h, snd (MMEType h), fst (MMEType h),
               fst (Vendor h), fst (snd (Vendor h)), snd (snd (Vendor h))] @ Payload h,
              6 + length (Payload h), None)"
  unfolding HomeplugFrame_read_def make_bytes_six
  by (simp add: exec_bind_def store_def slice_from_def copy_make Let_def numeral_eq_Suc)

lemma HomeplugFrame_MarshalBinary_layout:
  "HomeplugFrame_MarshalBinary h =
     Returns ([Version h, snd (MMEType h), fst (MMEType h),
               fst (Vendor h), fst (snd (Vendor h)), snd (snd (Vendor h))] @ Payload h, None)"
  unfolding HomeplugFrame_MarshalBinary_def HomeplugFrame_length_def HomeplugFrame_read_make
  by (simp add: exec_bind_def)

lemma HomeplugFrame_UnmarshalBinary_long:
  "6 \<le> length b \<Longrightarrow>
   HomeplugFrame_UnmarshalBinary h b =
     Returns (\<lparr>Version = b ! 0, MMEType = (b ! 2, b ! 1), Vendor = (b ! 3, b ! 4, b ! 5),
               Payload = drop 6 b\<rparr>, None)"
  unfolding HomeplugFrame_UnmarshalBinary_def
  by (cases h)
    (auto simp add: exec_bind_def index_def slice_from_def copy_def make_bytes_def Let_def)

lemma HomeplugFrame_UnmarshalBinary_short:
  "length b < 6 \<Longrightarrow> HomeplugFrame_UnmarshalBinary h b = Returns (h, Some ErrUnexpectedEOF)"
  by (simp add: HomeplugFrame_UnmarshalBinary_def)

text \<open>
  Claim C3. Encoding any frame \<open>f\<close> succeeds, and decoding the bytes it produced, into
  any receiver \<open>h\<close>, gives back exactly \<open>f\<close>: version, message type, vendor and the
  bytes of the payload.
\<close>

theorem frame_roundtrip:
  "\<exists>b. HomeplugFrame_MarshalBinary f = Returns (b, None)
       \<and> HomeplugFrame_UnmarshalBinary h b = Returns (f, None)"
proof -
  let ?b = "[Version f, snd (MMEType f), fst (MMEType f),
             fst (Vendor f), fst (snd (Vendor f)), snd (snd (Vendor f))] @ Payload f"
  have enc: "HomeplugFrame_MarshalBinary f = Returns (?b, None)"
    by (rule HomeplugFrame_MarshalBinary_layout)
  have "6 \<le> length ?b" by simp
  then have "HomeplugFrame_UnmarshalBinary h ?b =
      Returns (\<lparr>Version = ?b ! 0, MMEType = (?b ! 2, ?b ! 1), Vendor = (?b ! 3, ?b ! 4, ?b ! 5),
                Payload = drop 6 ?b\<rparr>, None)"
    by (rule HomeplugFrame_UnmarshalBinary_long)
  then have dec: "HomeplugFrame_UnmarshalBinary h ?b = Returns (f, None)"
    by (cases f) simp
  from enc dec show ?thesis by blast
qed

text \<open>
  Claim C4. Encoding never fails and never panics; its output has \<open>6 + len(payload)\<close>
  bytes: the version, then the second and the first byte of the message type, then the
  three vendor bytes, then the payload unchanged. The request type \<open>0xA038\<close>, the array
  \<open>{0xA0, 0x38}\<close>, goes on the wire as \<open>0x38, 0xA0\<close>, and a buffer carrying
  \<open>0x38, 0xA0\<close> in positions 1 and 2 decodes to the message type \<open>{0xA0, 0x38}\<close>.
\<close>

theorem frame_encode_layout:
  "(case HomeplugFrame_MarshalBinary f of
      Panic p \<Rightarrow> False
    | Returns (b, err) \<Rightarrow>
        err = None \<and> length b = 6 + length (Payload f)
        \<and> b ! 0 = Version f \<and> b ! 1 = snd (MMEType f) \<and> b ! 2 = fst (MMEType f)
        \<and> b ! 3 = fst (Vendor f) \<and> b ! 4 = fst (snd (Vendor f)) \<and> b ! 5 = snd (snd (Vendor f))
        \<and> drop 6 b = Payload f)
   \<and> HomeplugFrame_MarshalBinary \<lparr>Version = v, MMEType = (0xA0, 0x38), Vendor = (v0, v1, v2),
         Payload = p\<rparr> = Returns ([v, 0x38, 0xA0, v0, v1, v2] @ p, None)
   \<and> HomeplugFrame_UnmarshalBinary h ([v, 0x38, 0xA0, v0, v1, v2] @ p)
       = Returns (\<lparr>Version = v, MMEType = (0xA0, 0x38), Vendor = (v0, v1, v2), Payload = p\<rparr>,
                  None)"
proof (intro conjI)
  show "case HomeplugFrame_MarshalBinary f of
      Panic p \<Rightarrow> False
    | Returns (b, err) \<Rightarrow>
        err = None \<and> length b = 6 + length (Payload f)
        \<and> b ! 0 = Version f \<and> b ! 1 = snd (MMEType f) \<and> b ! 2 = fst (MMEType f)
        \<and> b ! 3 = fst (Vendor f) \<and> b ! 4 = fst (snd (Vendor f)) \<and> b ! 5 = snd (snd (Vendor f))
        \<and> drop 6 b = Payload f"
    by (simp add: HomeplugFrame_MarshalBinary_layout)
  show "HomeplugFrame_MarshalBinary \<lparr>Version = v, MMEType = (0xA0, 0x38), Vendor = (v0, v1, v2),
         Payload = p\<rparr> = Returns ([v, 0x38, 0xA0, v0, v1, v2] @ p, None)"
    by (simp add: HomeplugFrame_MarshalBinary_layout)
  have "6 \<le> length ([v, 0x38, 0xA0, v0, v1, v2] @ p)" by simp
  from HomeplugFrame_UnmarshalBinary_long [OF this, of h]
  show "HomeplugFrame_UnmarshalBinary h ([v, 0x38, 0xA0, v0, v1, v2] @ p)
       = Returns (\<lparr>Version = v, MMEType = (0xA0, 0x38), Vendor = (v0, v1, v2), Payload = p\<rparr>,
                  None)"
    by simp
qed

text \<open>
  Claim C5. Decoding a buffer of fewer than 6 bytes returns \<open>io.ErrUnexpectedEOF\<close> and
  leaves the receiver as it was; decoding a buffer of 6 bytes or more returns no error
  and the decoded frame. No buffer makes it panic.
\<close>

theorem frame_decode_length:
  "HomeplugFrame_UnmarshalBinary h b =
     (if length b < 6 then Returns (h, Some ErrUnexpectedEOF)
      else Returns (\<lparr>Version = b ! 0, MMEType = (b ! 2, b ! 1), Vendor = (b ! 3, b ! 4, b ! 5),
                     Payload = drop 6 b\<rparr>, None))"
  by (simp add: HomeplugFrame_UnmarshalBinary_long HomeplugFrame_UnmarshalBinary_short)

theorem frame_decode_length_witness:
  "HomeplugFrame_UnmarshalBinary zero_HomeplugFrame [0, 0x39, 0xA0, 0, 0xB0]
     = Returns (zero_HomeplugFrame, Some ErrUnexpectedEOF)
   \<and> HomeplugFrame_UnmarshalBinary zero_HomeplugFrame [0, 0x39, 0xA0, 0, 0xB0, 0x52]
     = Returns (\<lparr>Version = 0, MMEType = nwInfoCnf, Vendor = hpVendor, Payload = []\<rparr>, None)"
  using frame_decode_length [of zero_HomeplugFrame "[0, 0x39, 0xA0, 0, 0xB0]"]
    frame_decode_length [of zero_HomeplugFrame "[0, 0x39, 0xA0, 0, 0xB0, 0x52]"]
  by (simp add: nwInfoCnf_def hpVendor_def)

section \<open>Properties of the rate conversion\<close>

lemma unat_byte_less: "unat (c :: byte) < 256"
  using unsigned_less [of c] by simp

lemma unat_ucast_byte: "unat (ucast (c :: byte) :: 64 word) = unat c"
proof -
  have "unat c < 2 ^ 64" using unat_byte_less [of c] by simp
  then show ?thesis by (simp add: unsigned_ucast_eq take_bit_nat_eq_self)
qed

lemma unat_times_1024:
  "unat x < 2 ^ 54 \<Longrightarrow> unat (x * 1024 :: 64 word) = unat x * 1024"
  by (simp add: unat_word_ariths(2))

lemma unat_rate_bytes: "unat (rate_bytes c) = unat c * 1024 * 1024 div 8"
proof -
  have c: "unat c < 256" by (rule unat_byte_less)
  have m1: "unat ((ucast c :: 64 word) * 1024) = unat c * 1024"
    using c unat_times_1024 [of "ucast c"] by (simp add: unat_ucast_byte)
  have m2: "unat ((ucast c :: 64 word) * 1024 * 1024) = unat c * 1024 * 1024"
    using c unat_times_1024 [of "ucast c * 1024"] by (simp only: m1) simp
  have eight: "unat (8 :: 64 word) = 8" by simp
  show ?thesis
    unfolding rate_bytes_def unat_div m2 eight ..
qed

text \<open>
  Claim C8. The 64-bit value computed from a rate code is the code times 1024 times 1024
  divided by 8 over the natural numbers: no multiplication wraps and the division is
  exact (the value is the code times 131072). It stays below \<open>2 ^ 53\<close>, where every
  integer is a \<open>float64\<close>. The codes 1, 100 and 50 give 131072, 13107200 and 6553600.
\<close>

theorem rate_bytes_exact:
  "unat (rate_bytes c) = unat c * 1024 * 1024 div 8
   \<and> unat (rate_bytes c) = unat c * 131072
   \<and> unat (rate_bytes c) < 2 ^ 53
   \<and> rate_bytes 1 = 131072 \<and> rate_bytes 100 = 13107200 \<and> rate_bytes 50 = 6553600"
proof -
  have "unat (rate_bytes c) < 2 ^ 53"
    using unat_byte_less [of c] by (simp add: unat_rate_bytes)
  moreover have "rate_bytes 1 = 131072 \<and> rate_bytes 100 = 13107200 \<and> rate_bytes 50 = 6553600"
    by (simp add: rate_bytes_def)
  ultimately show ?thesis by (simp add: unat_rate_bytes)
qed

section \<open>Properties of the network info decoder\<close>

declare networks_loop.simps [simp del] stations_loop.simps [simp del]

lemma HomeplugNetworkStatus_UnmarshalBinary_long:
  "17 \<le> length b \<Longrightarrow>
   HomeplugNetworkStatus_UnmarshalBinary s b =
     Returns (s\<lparr>NetworkID := copy (NetworkID s) (take 7 b), ShortID := b ! 7, TEI := b ! 8,
                Role := b ! 9, CCoAddress := take 6 (drop 10 b), CCoTEI := b ! 16\<rparr>, 17, None)"
  unfolding HomeplugNetworkStatus_UnmarshalBinary_def
  by (simp add: exec_bind_def index_def slice_def Let_def)

lemma HomeplugNetworkStatus_UnmarshalBinary_short:
  "length b < 17 \<Longrightarrow>
   HomeplugNetworkStatus_UnmarshalBinary s b = Returns (s, 0, Some ErrUnexpectedEOF)"
  by (simp add: HomeplugNetworkStatus_UnmarshalBinary_def)

lemma HomeplugStationStatus_UnmarshalBinary_long:
  "15 \<le> length b \<Longrightarrow>
   HomeplugStationStatus_UnmarshalBinary s b =
     Returns (s\<lparr>Address := take 6 b, STEI := b ! 6, BridgedAddress := take 6 (drop 7 b),
                TxRate := b ! 13, RxRate := b ! 14\<rparr>, 15, None)"
  unfolding HomeplugStationStatus_UnmarshalBinary_def
  by (simp add: exec_bind_def index_def slice_def Let_def)

lemma HomeplugStationStatus_UnmarshalBinary_short:
  "length b < 15 \<Longrightarrow>
   HomeplugStationStatus_UnmarshalBinary s b = Returns (s, 0, Some ErrUnexpectedEOF)"
  by (simp add: HomeplugStationStatus_UnmarshalBinary_def)

lemma HomeplugNetworkStatus_UnmarshalBinary_drop:
  "off + 17 \<le> length b \<Longrightarrow>
   HomeplugNetworkStatus_UnmarshalBinary zero_HomeplugNetworkStatus (drop off b) =
     Returns (network_at b off, 17, None)"
  by (simp add: HomeplugNetworkStatus_UnmarshalBinary_long zero_HomeplugNetworkStatus_def
      network_at_def copy_def add.commute)

lemma HomeplugStationStatus_UnmarshalBinary_drop:
  "off + 15 \<le> length b \<Longrightarrow>
   HomeplugStationStatus_UnmarshalBinary zero_HomeplugStationStatus (drop off b) =
     Returns (station_at b off, 15, None)"
  by (simp add: HomeplugStationStatus_UnmarshalBinary_long zero_HomeplugStationStatus_def
      station_at_def add.commute)

text \<open>One iteration of each loop, by the length of what is left of the buffer.\<close>

lemma networks_loop_done:
  "\<not> i < num \<Longrightarrow> networks_loop i num b off n = Returns (off, n, None)"
  by (simp add: networks_loop.simps)

lemma networks_loop_short:
  "i < num \<Longrightarrow> off \<le> length b \<Longrightarrow> length b < off + 17 \<Longrightarrow>
   networks_loop i num b off n = Returns (off, n, Some ErrUnexpectedEOF)"
  by (subst networks_loop.simps)
    (simp add: slice_from_def HomeplugNetworkStatus_UnmarshalBinary_short)

lemma networks_loop_step:
  "i < num \<Longrightarrow> off + 17 \<le> length b \<Longrightarrow>
   networks_loop i num b off n =
     networks_loop (i + 1) num b (off + 17) (n\<lparr>Networks := Networks n @ [network_at b off]\<rparr>)"
  by (subst networks_loop.simps)
    (simp add: slice_from_def HomeplugNetworkStatus_UnmarshalBinary_drop)

lemma stations_loop_done:
  "\<not> i < num \<Longrightarrow> stations_loop i num b off n = Returns (off, n, None)"
  by (simp add: stations_loop.simps)

lemma stations_loop_short:
  "i < num \<Longrightarrow> off \<le> length b \<Longrightarrow> length b < off + 15 \<Longrightarrow>
   stations_loop i num b off n = Returns (off, n, Some ErrUnexpectedEOF)"
  by (subst stations_loop.simps)
    (simp add: slice_from_def HomeplugStationStatus_UnmarshalBinary_short)

lemma stations_loop_step:
  "i < num \<Longrightarrow> off + 15 \<le> length b \<Longrightarrow>
   stations_loop i num b off n =
     stations_loop (i + 1) num b (off + 15) (n\<lparr>Stations := Stations n @ [station_at b off]\<rparr>)"
  by (subst stations_loop.simps)
    (simp add: slice_from_def HomeplugStationStatus_UnmarshalBinary_drop)

lemma map_upt_shift:
  "map f [0..<Suc m] = f 0 # map (\<lambda>k. f (Suc k)) [0..<m]"
proof -
  have "[0..<Suc m] = 0 # map Suc [0..<m]"
    by (metis map_Suc_upt upt_conv_Cons zero_less_Suc)
  then show ?thesis by (simp only: list.map map_map comp_def)
qed

lemma networks_loop_ok:
  "num - i = m \<Longrightarrow> off + 17 * m \<le> length b \<Longrightarrow>
   networks_loop i num b off n =
     Returns (off + 17 * m,
              n\<lparr>Networks := Networks n @ map (\<lambda>k. network_at b (off + 17 * k)) [0..<m]\<rparr>,
              None)"
proof (induction m arbitrary: i off n)
  case 0
  then show ?case by (simp add: networks_loop_done)
next
  case (Suc m)
  from Suc.prems have lt: "i < num" and room: "off + 17 \<le> length b"
    and rest: "num - (i + 1) = m" "(off + 17) + 17 * m \<le> length b"
    by simp_all
  have shift: "map (\<lambda>k. network_at b (off + 17 * k)) [0..<Suc m] =
      network_at b off # map (\<lambda>k. network_at b (off + 17 + 17 * k)) [0..<m]"
    by (simp only: map_upt_shift) (simp add: add.assoc)
  show ?case
    unfolding networks_loop_step [OF lt room] Suc.IH [OF rest] shift
    by simp
qed

lemma networks_loop_eof:
  "num - i = m \<Longrightarrow> off \<le> length b \<Longrightarrow> length b < off + 17 * m \<Longrightarrow>
   \<exists>off' n'. networks_loop i num b off n = Returns (off', n', Some ErrUnexpectedEOF)"
proof (induction m arbitrary: i off n)
  case 0
  then show ?case by simp
next
  case (Suc m)
  from Suc.prems have lt: "i < num" and rest: "num - (i + 1) = m" by simp_all
  show ?case
  proof (cases "off + 17 \<le> length b")
    case True
    with Suc.prems have "off + 17 \<le> length b" "length b < (off + 17) + 17 * m" by simp_all
    from Suc.IH [OF rest this] show ?thesis
      unfolding networks_loop_step [OF lt True] .
  next
    case False
    with Suc.prems lt show ?thesis by (simp add: networks_loop_short)
  qed
qed

lemma stations_loop_ok:
  "num - i = m \<Longrightarrow> off + 15 * m \<le> length b \<Longrightarrow>
   stations_loop i num b off n =
     Returns (off + 15 * m,
              n\<lparr>Stations := Stations n @ map (\<lambda>k. station_at b (off + 15 * k)) [0..<m]\<rparr>,
              None)"
proof (induction m arbitrary: i off n)
  case 0
  then show ?case by (simp add: stations_loop_done)
next
  case (Suc m)
  from Suc.prems have lt: "i < num" and room: "off + 15 \<le> length b"
    and rest: "num - (i + 1) = m" "(off + 15) + 15 * m \<le> length b"
    by simp_all
  have shift: "map (\<lambda>k. station_at b (off + 15 * k)) [0..<Suc m] =
      station_at b off # map (\<lambda>k. station_at b (off + 15 + 15 * k)) [0..<m]"
    by (simp only: map_upt_shift) (simp add: add.assoc)
  show ?case
    unfolding stations_loop_step [OF lt room] Suc.IH [OF rest] shift
    by simp
qed

lemma stations_loop_eof:
  "num - i = m \<Longrightarrow> off \<le> length b \<Longrightarrow> length b < off + 15 * m \<Longrightarrow>
   \<exists>off' n'. stations_loop i num b off n = Returns (off', n', Some ErrUnexpectedEOF)"
proof (induction m arbitrary: i off n)
  case 0
  then show ?case by simp
next
  case (Suc m)
  from Suc.prems have lt: "i < num" and rest: "num - (i + 1) = m" by simp_all
  show ?case
  proof (cases "off + 15 \<le> length b")
    case True
    with Suc.prems have "off + 15 \<le> length b" "length b < (off + 15) + 15 * m" by simp_all
    from Suc.IH [OF rest this] show ?thesis
      unfolding stations_loop_step [OF lt True] .
  next
    case False
    with Suc.prems lt show ?thesis by (simp add: stations_loop_short)
  qed
qed


lemma networks_loop_all:
  "off + 17 * num \<le> length b \<Longrightarrow>
   networks_loop 0 num b off n =
     Returns (off + 17 * num,
              n\<lparr>Networks := Networks n @ map (\<lambda>k. network_at b (off + 17 * k)) [0..<num]\<rparr>,
              None)"
  using networks_loop_ok [where i = 0 and num = num and m = num] by simp

lemma networks_loop_cut:
  "off \<le> length b \<Longrightarrow> length b < off + 17 * num \<Longrightarrow>
   \<exists>off' n'. networks_loop 0 num b off n = Returns (off', n', Some ErrUnexpectedEOF)"
  using networks_loop_eof [where i = 0 and num = num and m = num] by simp

lemma stations_loop_all:
  "off + 15 * num \<le> length b \<Longrightarrow>
   stations_loop 0 num b off n =
     Returns (off + 15 * num,
              n\<lparr>Stations := Stations n @ map (\<lambda>k. station_at b (off + 15 * k)) [0..<num]\<rparr>,
              None)"
  using stations_loop_ok [where i = 0 and num = num and m = num] by simp

lemma stations_loop_cut:
  "off \<le> length b \<Longrightarrow> length b < off + 15 * num \<Longrightarrow>
   \<exists>off' n'. stations_loop 0 num b off n = Returns (off', n', Some ErrUnexpectedEOF)"
  using stations_loop_eof [where i = 0 and num = num and m = num] by simp

text \<open>The decoder, by the length of its input.\<close>

lemma HomeplugNetworkInfo_UnmarshalBinary_empty:
  "HomeplugNetworkInfo_UnmarshalBinary n [] = Panic IndexOutOfRange"
  by (simp add: HomeplugNetworkInfo_UnmarshalBinary_def index_def exec_bind_def)

lemma HomeplugNetworkInfo_UnmarshalBinary_nonempty:
  "b \<noteq> [] \<Longrightarrow>
   HomeplugNetworkInfo_UnmarshalBinary n b =
     (case networks_loop 0 (unat (b ! 0)) b 1 n of
        Panic p \<Rightarrow> Panic p
      | Returns (off, n', Some e) \<Rightarrow> Returns (n', Some e)
      | Returns (off, n', None) \<Rightarrow>
          (case index b off of
             Panic p \<Rightarrow> Panic p
           | Returns c \<Rightarrow>
               (case stations_loop 0 (unat c) b (off + 1) n' of
                  Panic p \<Rightarrow> Panic p
                | Returns (off', n'', err) \<Rightarrow> Returns (n'', err))))"
  by (simp add: HomeplugNetworkInfo_UnmarshalBinary_def index_def exec_bind_def Let_def
      split: exec.splits option.splits prod.splits)

lemma decode_networks_failed:
  assumes "b \<noteq> []"
    and "networks_loop 0 (unat (b ! 0)) b 1 n = Returns (off, n1, Some e)"
  shows "HomeplugNetworkInfo_UnmarshalBinary n b = Returns (n1, Some e)"
  using assms by (simp add: HomeplugNetworkInfo_UnmarshalBinary_nonempty)

lemma decode_count_missing:
  assumes "b \<noteq> []"
    and "networks_loop 0 (unat (b ! 0)) b 1 n = Returns (off, n1, None)"
    and "length b \<le> off"
  shows "HomeplugNetworkInfo_UnmarshalBinary n b = Panic IndexOutOfRange"
  using assms by (simp add: HomeplugNetworkInfo_UnmarshalBinary_nonempty index_def)

lemma decode_stations:
  assumes "b \<noteq> []"
    and "networks_loop 0 (unat (b ! 0)) b 1 n = Returns (off, n1, None)"
    and "off < length b"
    and "stations_loop 0 (unat (b ! off)) b (off + 1) n1 = Returns (off', n2, err)"
  shows "HomeplugNetworkInfo_UnmarshalBinary n b = Returns (n2, err)"
  using assms by (simp add: HomeplugNetworkInfo_UnmarshalBinary_nonempty index_def)

lemma HomeplugNetworkInfo_UnmarshalBinary_no_station_count:
  assumes "b \<noteq> []" and "length b = 1 + 17 * unat (b ! 0)"
  shows "HomeplugNetworkInfo_UnmarshalBinary n b = Panic IndexOutOfRange"
proof -
  have "1 + 17 * unat (b ! 0) \<le> length b" using assms by simp
  from decode_count_missing [OF assms(1) networks_loop_all [OF this, of n]] assms(2)
  show ?thesis by simp
qed

lemma HomeplugNetworkInfo_UnmarshalBinary_eof_networks:
  assumes "b \<noteq> []" and "length b < 1 + 17 * unat (b ! 0)"
  shows "\<exists>n'. HomeplugNetworkInfo_UnmarshalBinary n b = Returns (n', Some ErrUnexpectedEOF)"
proof -
  have "1 \<le> length b" using assms(1) by (cases b) simp_all
  from networks_loop_cut [OF this assms(2), of n]
  obtain off' n' where
    "networks_loop 0 (unat (b ! 0)) b 1 n = Returns (off', n', Some ErrUnexpectedEOF)"
    by auto
  from decode_networks_failed [OF assms(1) this] show ?thesis by blast
qed

lemma HomeplugNetworkInfo_UnmarshalBinary_eof_stations:
  assumes "1 + 17 * unat (b ! 0) < length b"
    and "length b < 2 + 17 * unat (b ! 0) + 15 * unat (b ! (1 + 17 * unat (b ! 0)))"
  shows "\<exists>n'. HomeplugNetworkInfo_UnmarshalBinary n b = Returns (n', Some ErrUnexpectedEOF)"
proof -
  let ?N = "unat (b ! 0)"
  let ?M = "unat (b ! (1 + 17 * ?N))"
  have ne: "b \<noteq> []" using assms(1) by auto
  have "1 + 17 * ?N \<le> length b" using assms(1) by simp
  note nets = networks_loop_all [OF this, of n]
  have "(1 + 17 * ?N) + 1 \<le> length b" using assms(1) by simp
  moreover have "length b < ((1 + 17 * ?N) + 1) + 15 * ?M"
    using assms(2) by simp
  ultimately have "\<exists>off' n'. stations_loop 0 ?M b ((1 + 17 * ?N) + 1)
       (n\<lparr>Networks := Networks n @ map (\<lambda>k. network_at b (1 + 17 * k)) [0..<?N]\<rparr>)
         = Returns (off', n', Some ErrUnexpectedEOF)"
    by (rule stations_loop_cut)
  then obtain off' n' where "stations_loop 0 ?M b ((1 + 17 * ?N) + 1)
       (n\<lparr>Networks := Networks n @ map (\<lambda>k. network_at b (1 + 17 * k)) [0..<?N]\<rparr>)
         = Returns (off', n', Some ErrUnexpectedEOF)"
    by blast
  from decode_stations [OF ne nets assms(1) this] show ?thesis by blast
qed

lemma HomeplugNetworkInfo_UnmarshalBinary_ok:
  assumes "2 + 17 * unat (b ! 0) + 15 * unat (b ! (1 + 17 * unat (b ! 0))) \<le> length b"
  shows "HomeplugNetworkInfo_UnmarshalBinary n b =
     Returns (n\<lparr>Networks := Networks n @
                   map (\<lambda>k. network_at b (1 + 17 * k)) [0..<unat (b ! 0)],
                Stations := Stations n @
                   map (\<lambda>k. station_at b (2 + 17 * unat (b ! 0) + 15 * k))
                     [0..<unat (b ! (1 + 17 * unat (b ! 0)))]\<rparr>, None)"
proof -
  let ?N = "unat (b ! 0)"
  let ?M = "unat (b ! (1 + 17 * ?N))"
  have ne: "b \<noteq> []" using assms by auto
  have "1 + 17 * ?N \<le> length b" using assms by simp
  note nets = networks_loop_all [OF this, of n]
  have idx: "1 + 17 * ?N < length b" using assms by simp
  have "((1 + 17 * ?N) + 1) + 15 * ?M \<le> length b" using assms by simp
  note stas = stations_loop_all [OF this]
  from decode_stations [OF ne nets idx stas]
  show ?thesis by (simp add: add.assoc add.left_commute)
qed

lemma HomeplugNetworkInfo_UnmarshalBinary_outcome:
  "(2 + 17 * unat (b ! 0) + 15 * unat (b ! (1 + 17 * unat (b ! 0))) \<le> length b
      \<and> (\<exists>n'. HomeplugNetworkInfo_UnmarshalBinary n b = Returns (n', None)))
   \<or> (\<exists>n'. HomeplugNetworkInfo_UnmarshalBinary n b = Returns (n', Some ErrUnexpectedEOF))
   \<or> ((b = [] \<or> length b = 1 + 17 * unat (b ! 0))
      \<and> HomeplugNetworkInfo_UnmarshalBinary n b = Panic IndexOutOfRange)"
proof -
  let ?N = "unat (b ! 0)"
  let ?M = "unat (b ! (1 + 17 * ?N))"
  consider (empty) "b = []"
    | (nets) "b \<noteq> []" "length b < 1 + 17 * ?N"
    | (count) "b \<noteq> []" "length b = 1 + 17 * ?N"
    | (stas) "1 + 17 * ?N < length b" "length b < 2 + 17 * ?N + 15 * ?M"
    | (ok) "2 + 17 * ?N + 15 * ?M \<le> length b"
    by linarith
  then show ?thesis
  proof cases
    case empty
    then show ?thesis by (simp add: HomeplugNetworkInfo_UnmarshalBinary_empty)
  next
    case nets
    from HomeplugNetworkInfo_UnmarshalBinary_eof_networks [OF this] show ?thesis by blast
  next
    case count
    from HomeplugNetworkInfo_UnmarshalBinary_no_station_count [OF this] count(2)
    show ?thesis by blast
  next
    case stas
    from HomeplugNetworkInfo_UnmarshalBinary_eof_stations [OF this] show ?thesis by blast
  next
    case ok
    from HomeplugNetworkInfo_UnmarshalBinary_ok [OF this] ok show ?thesis by blast
  qed
qed

lemma decode_success_length:
  assumes "HomeplugNetworkInfo_UnmarshalBinary n b = Returns (n', None)"
  shows "2 + 17 * unat (b ! 0) + 15 * unat (b ! (1 + 17 * unat (b ! 0))) \<le> length b"
  using HomeplugNetworkInfo_UnmarshalBinary_outcome [of b n] assms by auto

text \<open>
  Claim C1. The claim asks that every buffer is decoded or rejected with the truncation
  error. The decoder reads both count bytes without looking at the length of the buffer:
  on the empty buffer, on the buffer \<open>[0]\<close>, and on a buffer that ends right after its
  declared network records (here three of them), it panics with an index out of range.
  \<open>HomeplugNetworkInfo_UnmarshalBinary_outcome\<close> above gives the outcome for every buffer.
\<close>

theorem network_info_decode_panics:
  "HomeplugNetworkInfo_UnmarshalBinary n [] = Panic IndexOutOfRange
   \<and> HomeplugNetworkInfo_UnmarshalBinary n [0] = Panic IndexOutOfRange
   \<and> HomeplugNetworkInfo_UnmarshalBinary n (3 # replicate 51 0) = Panic IndexOutOfRange"
proof (intro conjI)
  show "HomeplugNetworkInfo_UnmarshalBinary n [] = Panic IndexOutOfRange"
    by (rule HomeplugNetworkInfo_UnmarshalBinary_empty)
  show "HomeplugNetworkInfo_UnmarshalBinary n [0] = Panic IndexOutOfRange"
    by (rule HomeplugNetworkInfo_UnmarshalBinary_no_station_count) simp_all
  show "HomeplugNetworkInfo_UnmarshalBinary n (3 # replicate 51 0) = Panic IndexOutOfRange"
    by (rule HomeplugNetworkInfo_UnmarshalBinary_no_station_count) simp_all
qed

lemma take_drop_take:
  "off + k \<le> l \<Longrightarrow> take k (drop off (take l c)) = take k (drop off c)"
  by (simp add: drop_take min_def)

lemma network_at_prefix:
  "off + 17 \<le> l \<Longrightarrow> l \<le> length c \<Longrightarrow> network_at (take l c @ e) off = network_at c off"
  by (simp add: network_at_def nth_append take_drop_take)

lemma station_at_prefix:
  "off + 15 \<le> l \<Longrightarrow> l \<le> length c \<Longrightarrow> station_at (take l c @ e) off = station_at c off"
  by (simp add: station_at_def nth_append take_drop_take)

text \<open>
  Claim C10. When the decoder succeeds on a buffer \<open>c\<close>, the buffer holds at least the
  two count bytes and the declared records; whatever follows them does not matter, since
  decoding the declared part followed by any other bytes gives the same result; and the
  receiver has gained exactly as many networks and stations as the count bytes declare.
\<close>

theorem decode_ignores_trailing:
  assumes "HomeplugNetworkInfo_UnmarshalBinary n c = Returns (n', None)"
  shows "2 + 17 * unat (c ! 0) + 15 * unat (c ! (1 + 17 * unat (c ! 0))) \<le> length c
    \<and> (\<forall>extra. HomeplugNetworkInfo_UnmarshalBinary n
          (take (2 + 17 * unat (c ! 0) + 15 * unat (c ! (1 + 17 * unat (c ! 0)))) c @ extra)
          = Returns (n', None))
    \<and> length (Networks n') = length (Networks n) + unat (c ! 0)
    \<and> length (Stations n') = length (Stations n) + unat (c ! (1 + 17 * unat (c ! 0)))"
proof -
  let ?N = "unat (c ! 0)"
  let ?M = "unat (c ! (1 + 17 * ?N))"
  let ?l = "2 + 17 * ?N + 15 * ?M"
  have len: "?l \<le> length c" using assms by (rule decode_success_length)
  have n': "n' = n\<lparr>Networks := Networks n @ map (\<lambda>k. network_at c (1 + 17 * k)) [0..<?N],
                   Stations := Stations n @ map (\<lambda>k. station_at c (2 + 17 * ?N + 15 * k)) [0..<?M]\<rparr>"
    using HomeplugNetworkInfo_UnmarshalBinary_ok [OF len, of n] assms by simp
  have "HomeplugNetworkInfo_UnmarshalBinary n (take ?l c @ extra) = Returns (n', None)" for extra
  proof -
    let ?b = "take ?l c @ extra"
    have b0: "?b ! 0 = c ! 0" using len by (simp add: nth_append)
    have b1: "?b ! (1 + 17 * ?N) = c ! (1 + 17 * ?N)" using len by (simp add: nth_append)
    have "2 + 17 * unat (?b ! 0) + 15 * unat (?b ! (1 + 17 * unat (?b ! 0))) \<le> length ?b"
      unfolding b0 b1 using len by simp
    from HomeplugNetworkInfo_UnmarshalBinary_ok [OF this, of n, unfolded b0 b1]
    have "HomeplugNetworkInfo_UnmarshalBinary n ?b =
        Returns (n\<lparr>Networks := Networks n @ map (\<lambda>k. network_at ?b (1 + 17 * k)) [0..<?N],
                   Stations := Stations n @ map (\<lambda>k. station_at ?b (2 + 17 * ?N + 15 * k)) [0..<?M]\<rparr>,
                 None)" .
    moreover have "map (\<lambda>k. network_at ?b (1 + 17 * k)) [0..<?N]
        = map (\<lambda>k. network_at c (1 + 17 * k)) [0..<?N]"
    proof (rule map_cong [OF refl])
      fix k assume "k \<in> set [0..<?N]"
      then have "(1 + 17 * k) + 17 \<le> ?l" by simp
      then show "network_at ?b (1 + 17 * k) = network_at c (1 + 17 * k)"
        using len by (rule network_at_prefix)
    qed
    moreover have "map (\<lambda>k. station_at ?b (2 + 17 * ?N + 15 * k)) [0..<?M]
        = map (\<lambda>k. station_at c (2 + 17 * ?N + 15 * k)) [0..<?M]"
    proof (rule map_cong [OF refl])
      fix k assume "k \<in> set [0..<?M]"
      then have "(2 + 17 * ?N + 15 * k) + 15 \<le> ?l" by simp
      then show "station_at ?b (2 + 17 * ?N + 15 * k) = station_at c (2 + 17 * ?N + 15 * k)"
        using len by (rule station_at_prefix)
    qed
    ultimately show ?thesis by (simp only: n')
  qed
  with len show ?thesis by (simp add: n')
qed

lemma sample_payload_decodes:
  "HomeplugNetworkInfo_UnmarshalBinary zero_HomeplugNetworkInfo (sample_payload @ extra) =
     Returns (\<lparr>Networks = [\<lparr>NetworkID = [1, 2, 3, 4, 5, 6, 7], ShortID = 1, TEI = 2, Role = 0,
                              CCoAddress = [0x00, 0xB0, 0x52, 0x00, 0x00, 0x01], CCoTEI = 3\<rparr>],
               Stations = [\<lparr>Address = [0x00, 0xB0, 0x52, 0x00, 0x00, 0x02], STEI = 4,
                              BridgedAddress = [0, 0, 0, 0, 0, 0], TxRate = 100, RxRate = 50\<rparr>]\<rparr>,
              None)"
proof -
  let ?b = "sample_payload @ extra"
  have b0: "?b ! 0 = 1" and b18: "?b ! 18 = 1" by (simp_all add: sample_payload_def)
  have "2 + 17 * unat (?b ! 0) + 15 * unat (?b ! (1 + 17 * unat (?b ! 0))) \<le> length ?b"
    unfolding b0 by (simp add: sample_payload_def)
  from HomeplugNetworkInfo_UnmarshalBinary_ok [OF this, of zero_HomeplugNetworkInfo]
  show ?thesis
    unfolding b0 by (simp add: sample_payload_def zero_HomeplugNetworkInfo_def network_at_def station_at_def)
qed

theorem decode_ignores_trailing_witness:
  "HomeplugNetworkInfo_UnmarshalBinary zero_HomeplugNetworkInfo (sample_payload @ [0xDE, 0xAD]) =
     Returns (\<lparr>Networks = [\<lparr>NetworkID = [1, 2, 3, 4, 5, 6, 7], ShortID = 1, TEI = 2, Role = 0,
                              CCoAddress = [0x00, 0xB0, 0x52, 0x00, 0x00, 0x01], CCoTEI = 3\<rparr>],
               Stations = [\<lparr>Address = [0x00, 0xB0, 0x52, 0x00, 0x00, 0x02], STEI = 4,
                              BridgedAddress = [0, 0, 0, 0, 0, 0], TxRate = 100, RxRate = 50\<rparr>]\<rparr>,
              None)
   \<and> HomeplugNetworkInfo_UnmarshalBinary zero_HomeplugNetworkInfo (sample_payload @ [1, 2, 3]) =
     Returns (\<lparr>Networks = [\<lparr>NetworkID = [1, 2, 3, 4, 5, 6, 7], ShortID = 1, TEI = 2, Role = 0,
                              CCoAddress = [0x00, 0xB0, 0x52, 0x00, 0x00, 0x01], CCoTEI = 3\<rparr>],
               Stations = [\<lparr>Address = [0x00, 0xB0, 0x52, 0x00, 0x00, 0x02], STEI = 4,
                              BridgedAddress = [0, 0, 0, 0, 0, 0], TxRate = 100, RxRate = 50\<rparr>]\<rparr>,
              None)"
proof -
  let ?c = "sample_payload @ [0xDE, 0xAD]"
  have c0: "?c ! 0 = 1" by (simp add: sample_payload_def)
  have c18: "?c ! 18 = 1" by (simp add: sample_payload_def)
  have cut: "take 34 ?c = sample_payload" by (simp add: sample_payload_def)
  note hyp = sample_payload_decodes [of "[0xDE, 0xAD]"]
  from decode_ignores_trailing [OF hyp]
  have "\<forall>extra. HomeplugNetworkInfo_UnmarshalBinary zero_HomeplugNetworkInfo
          (take (2 + 17 * unat (?c ! 0) + 15 * unat (?c ! (1 + 17 * unat (?c ! 0)))) ?c @ extra)
        = Returns (\<lparr>Networks = [\<lparr>NetworkID = [1, 2, 3, 4, 5, 6, 7], ShortID = 1, TEI = 2, Role = 0,
                              CCoAddress = [0x00, 0xB0, 0x52, 0x00, 0x00, 0x01], CCoTEI = 3\<rparr>],
               Stations = [\<lparr>Address = [0x00, 0xB0, 0x52, 0x00, 0x00, 0x02], STEI = 4,
                              BridgedAddress = [0, 0, 0, 0, 0, 0], TxRate = 100, RxRate = 50\<rparr>]\<rparr>,
              None)"
    by (rule conjunct2 [THEN conjunct1])
  then have step: "HomeplugNetworkInfo_UnmarshalBinary zero_HomeplugNetworkInfo
          (take (2 + 17 * unat (?c ! 0) + 15 * unat (?c ! (1 + 17 * unat (?c ! 0)))) ?c @ [1, 2, 3])
        = Returns (\<lparr>Networks = [\<lparr>NetworkID = [1, 2, 3, 4, 5, 6, 7], ShortID = 1, TEI = 2, Role = 0,
                              CCoAddress = [0x00, 0xB0, 0x52, 0x00, 0x00, 0x01], CCoTEI = 3\<rparr>],
               Stations = [\<lparr>Address = [0x00, 0xB0, 0x52, 0x00, 0x00, 0x02], STEI = 4,
                              BridgedAddress = [0, 0, 0, 0, 0, 0], TxRate = 100, RxRate = 50\<rparr>]\<rparr>,
              None)"
    by (rule spec)
  have declared: "take (2 + 17 * unat (?c ! 0) + 15 * unat (?c ! (1 + 17 * unat (?c ! 0)))) ?c
      = sample_payload"
    unfolding c0 by (simp add: sample_payload_def)
  from hyp step [unfolded declared] show ?thesis by (rule conjI)
qed

text \<open>
  Claim C6. A payload that declares two networks and carries 17 bytes after the count
  byte makes the decoder return \<open>io.ErrUnexpectedEOF\<close>. A confirm frame with that payload
  leaves the list of results collected so far as it is, so the cycle goes on as if the
  frame had not arrived, apart from the time that passed.
\<close>

theorem truncated_confirm_dropped:
  assumes "length r = 17"
  shows "(\<exists>n'. HomeplugNetworkInfo_UnmarshalBinary n (2 # r) = Returns (n', Some ErrUnexpectedEOF))
    \<and> recv_case \<lparr>Version = v, MMEType = nwInfoCnf, Vendor = vd, Payload = 2 # r\<rparr> ni = Returns ni
    \<and> (d < time_Second \<longrightarrow>
         ChanLoop ((d, \<lparr>Version = v, MMEType = nwInfoCnf, Vendor = vd, Payload = 2 # r\<rparr>) # frames) ni t
           = ChanLoop frames ni (t + d))"
proof -
  have eof: "\<exists>n'. HomeplugNetworkInfo_UnmarshalBinary n (2 # r) = Returns (n', Some ErrUnexpectedEOF)"
    for n
    by (rule HomeplugNetworkInfo_UnmarshalBinary_eof_networks) (simp_all add: assms)
  from eof [of zero_HomeplugNetworkInfo]
  have recv: "recv_case \<lparr>Version = v, MMEType = nwInfoCnf, Vendor = vd, Payload = 2 # r\<rparr> ni = Returns ni"
    by (auto simp add: recv_case_def exec_bind_def)
  from eof recv show ?thesis by simp
qed

theorem truncated_confirm_dropped_witness:
  "length [1, 2, 3, 4, 5, 6, 7, 1, 2, 0, 0x00, 0xB0, 0x52, 0x00, 0x00, 0x01, 3 :: byte] = 17
   \<and> (\<exists>n'. HomeplugNetworkInfo_UnmarshalBinary zero_HomeplugNetworkInfo
          [2, 1, 2, 3, 4, 5, 6, 7, 1, 2, 0, 0x00, 0xB0, 0x52, 0x00, 0x00, 0x01, 3]
        = Returns (n', Some ErrUnexpectedEOF))
   \<and> recv_case \<lparr>Version = 0, MMEType = nwInfoCnf, Vendor = hpVendor,
        Payload = [2, 1, 2, 3, 4, 5, 6, 7, 1, 2, 0, 0x00, 0xB0, 0x52, 0x00, 0x00, 0x01, 3]\<rparr> []
       = Returns []
   \<and> ChanLoop [(5, \<lparr>Version = 0, MMEType = nwInfoCnf, Vendor = hpVendor,
        Payload = [2, 1, 2, 3, 4, 5, 6, 7, 1, 2, 0, 0x00, 0xB0, 0x52, 0x00, 0x00, 0x01, 3]\<rparr>)] [] 0
       = Returns ([], 1000000005)"
  using truncated_confirm_dropped [of "[1, 2, 3, 4, 5, 6, 7, 1, 2, 0, 0x00, 0xB0, 0x52, 0x00, 0x00, 0x01, 3]"
      zero_HomeplugNetworkInfo 0 hpVendor "[]" 5 "[]" 0]
  by (simp add: time_Second_def)

section \<open>Properties of the link\<close>

lemma write_homeplug_result:
  "write_homeplug L hwaddr dest =
     (case ethernet_MarshalBinary L
             \<lparr>Destination = dest, Source = hwaddr, EtherType = etherType,
              EthPayload = [0x00, 0x38, 0xA0, 0x00, 0xB0, 0x52]\<rparr> of
        (b, Some e) \<Rightarrow> Returns (Some (Errorf ''failed to marshal ethernet frame'' e))
      | (b, None) \<Rightarrow>
          (case conn_WriteTo L b dest of
             Some e \<Rightarrow> Returns (Some (Errorf ''failed to send message'' e))
           | None \<Rightarrow> Returns None))"
  unfolding write_homeplug_def Let_def HomeplugFrame_MarshalBinary_layout
  by (simp add: exec_bind_def hpVersion_def nwInfoReq_def hpVendor_def)

lemma write_homeplug_down_link:
  "write_homeplug down_link hwaddr dest =
     Returns (Some (Errorf ''failed to send message'' (ErrIO ''network is down'')))"
  by (simp add: write_homeplug_result down_link_def untagged_link_def untagged_MarshalBinary_def)

lemma write_homeplug_untagged_link:
  "write_homeplug untagged_link hwaddr dest = Returns None"
  by (simp add: write_homeplug_result untagged_link_def untagged_MarshalBinary_def)

text \<open>
  Claim C7. When \<open>write_homeplug\<close> returns an error, \<open>get_homeplug_netinfo\<close> returns at
  once: the slice it returns is nil, the error wraps the one of \<open>write_homeplug\<close>, no time
  is spent waiting, and the frames that the receive task would deliver play no part.
\<close>

theorem send_failure_aborts:
  assumes "write_homeplug L hwaddr dest = Returns (Some e)"
  shows "get_homeplug_netinfo L hwaddr dest frames =
           Returns (None, Some (Errorf ''write_homeplug failed'' e), 0)"
  using assms by (simp add: get_homeplug_netinfo_def exec_bind_def)

theorem send_failure_aborts_witness:
  "write_homeplug down_link [0x02, 0, 0, 0, 0, 0x01] [0x00, 0xB0, 0x52, 0x00, 0x00, 0x01]
     = Returns (Some (Errorf ''failed to send message'' (ErrIO ''network is down'')))
   \<and> get_homeplug_netinfo down_link [0x02, 0, 0, 0, 0, 0x01] [0x00, 0xB0, 0x52, 0x00, 0x00, 0x01]
       [(5, sample_confirm)]
     = Returns (None,
         Some (Errorf ''write_homeplug failed''
                (Errorf ''failed to send message'' (ErrIO ''network is down''))), 0)"
  using send_failure_aborts [OF write_homeplug_down_link]
  by (simp add: write_homeplug_down_link)

lemma read_homeplug_packet:
  "read_homeplug L (ReadOk bs # reads) =
     (case ethernet_UnmarshalBinary L bs of
        (f, Some err) \<Rightarrow> read_homeplug L reads
      | (f, None) \<Rightarrow>
          if length (EthPayload f) < 6 then read_homeplug L reads
          else (case read_homeplug L reads of
                  Panic p \<Rightarrow> Panic p
                | Returns (hs, st) \<Rightarrow>
                    Returns (\<lparr>Version = EthPayload f ! 0,
                              MMEType = (EthPayload f ! 2, EthPayload f ! 1),
                              Vendor = (EthPayload f ! 3, EthPayload f ! 4, EthPayload f ! 5),
                              Payload = drop 6 (EthPayload f)\<rparr> # hs, st)))"
  by (auto simp add: HomeplugFrame_UnmarshalBinary_long HomeplugFrame_UnmarshalBinary_short
      split: prod.splits option.splits exec.splits)

text \<open>
  Claim C2, as amended. The receive loop ends at the first read that returns an error,
  whatever the error is, a read that ran into its deadline included: after any number of
  successful reads, the loop has forwarded the frames of those reads and is terminated,
  and no later read takes place.
\<close>

theorem read_failure_terminates:
  "\<exists>hs. read_homeplug L (map ReadOk packets @ ReadErr e # reads) = Returns (hs, Terminated)
        \<and> read_homeplug L (map ReadOk packets) = Returns (hs, Reading)"
proof (induction packets)
  case Nil
  show ?case by simp
next
  case (Cons bs packets)
  then obtain hs where
    hs: "read_homeplug L (map ReadOk packets @ ReadErr e # reads) = Returns (hs, Terminated)"
        "read_homeplug L (map ReadOk packets) = Returns (hs, Reading)"
    by blast
  show ?case
    by (simp only: list.map append_Cons read_homeplug_packet hs)
      (simp split: prod.splits option.splits)
qed

text \<open>
  The claim as stated fails: a read that runs into its deadline ends the loop, and the
  packet that a retry would have read and forwarded is never read.
\<close>

theorem read_timeout_ends_task:
  "read_homeplug untagged_link [ReadErr ErrDeadlineExceeded, ReadOk sample_packet]
     = Returns ([], Terminated)
   \<and> read_homeplug untagged_link [ReadOk sample_packet] = Returns ([sample_confirm], Reading)"
  by (simp add: HomeplugFrame_UnmarshalBinary_long untagged_link_def
      untagged_UnmarshalBinary_def sample_packet_def sample_confirm_def)

section \<open>Properties of the collection cycle\<close>

text \<open>
  The idle timeout, as long as no frame makes the decoder panic: when every frame of
  \<open>early\<close> is ready less than a second after its \<open>select\<close> began, and the next frame, if
  there is one, is not, the loop handles exactly the frames of \<open>early\<close>, in order, and
  returns one second after the last of them.
\<close>

lemma ChanLoop_idle_timeout:
  assumes "\<forall>x \<in> set early. fst x < time_Second"
    and "late = [] \<or> time_Second \<le> fst (hd late)"
    and "recv_all (map snd early) ni = Returns ni'"
  shows "ChanLoop (early @ late) ni t = Returns (ni', t + sum_list (map fst early) + time_Second)"
  using assms
proof (induction early arbitrary: ni t)
  case Nil
  then show ?case by (cases late) auto
next
  case (Cons x early)
  obtain d h where x: "x = (d, h)" by (cases x)
  from Cons.prems(1) x have d: "d < time_Second" by simp
  from Cons.prems(3) x obtain ni1 where
    ni1: "recv_case h ni = Returns ni1" "recv_all (map snd early) ni1 = Returns ni'"
    by (auto split: exec.splits)
  from Cons.prems(1) have "\<forall>x \<in> set early. fst x < time_Second" by simp
  from Cons.IH [OF this Cons.prems(2) ni1(2), of "t + d"]
  show ?case using d ni1(1) by (simp add: x add.assoc)
qed

lemma ChanLoop_panic:
  assumes "\<forall>x \<in> set early. fst x < time_Second"
    and "recv_all (map snd early) ni = Panic p"
  shows "ChanLoop (early @ late) ni t = Panic p"
  using assms
proof (induction early arbitrary: ni t)
  case Nil
  then show ?case by simp
next
  case (Cons x early)
  obtain d h where x: "x = (d, h)" by (cases x)
  from Cons.prems(1) x have d: "d < time_Second" by simp
  from Cons.prems(1) have rest: "\<forall>x \<in> set early. fst x < time_Second" by simp
  show ?case
  proof (cases "recv_case h ni")
    case (Panic q)
    with Cons.prems(2) x d show ?thesis by simp
  next
    case (Returns ni1)
    with Cons.prems(2) x have "recv_all (map snd early) ni1 = Panic p" by simp
    from Cons.IH [OF rest this, of "t + d"] show ?thesis using d Returns by (simp add: x)
  qed
qed

lemma recv_case_sample_confirm:
  "recv_case sample_confirm ni =
     Returns (ni @ [\<lparr>Networks = [\<lparr>NetworkID = [1, 2, 3, 4, 5, 6, 7], ShortID = 1, TEI = 2, Role = 0,
                              CCoAddress = [0x00, 0xB0, 0x52, 0x00, 0x00, 0x01], CCoTEI = 3\<rparr>],
               Stations = [\<lparr>Address = [0x00, 0xB0, 0x52, 0x00, 0x00, 0x02], STEI = 4,
                              BridgedAddress = [0, 0, 0, 0, 0, 0], TxRate = 100, RxRate = 50\<rparr>]\<rparr>])"
  using sample_payload_decodes [of "[]"]
  by (simp add: recv_case_def sample_confirm_def nwInfoCnf_def exec_bind_def)

lemma recv_case_empty_confirm: "recv_case empty_confirm ni = Panic IndexOutOfRange"
  by (simp add: recv_case_def empty_confirm_def nwInfoCnf_def exec_bind_def
      HomeplugNetworkInfo_UnmarshalBinary_empty)

lemma get_homeplug_netinfo_idle_timeout:
  assumes "write_homeplug L hwaddr dest = Returns None"
    and "\<forall>x \<in> set early. fst x < time_Second"
    and "late = [] \<or> time_Second \<le> fst (hd late)"
    and "recv_all (map snd early) [] = Returns ni"
  shows "get_homeplug_netinfo L hwaddr dest (early @ late) =
           Returns (Some ni, None, sum_list (map fst early) + time_Second)"
  using ChanLoop_idle_timeout [OF assms(2-4), of 0] assms(1)
  by (simp add: get_homeplug_netinfo_def exec_bind_def)

text \<open>
  Claim C9. The claim asks that the cycle ends when a full second has passed without a
  frame, with the records of all frames received until then. A confirm frame whose
  payload makes the decoder panic ends the cycle at once instead, and nothing is
  returned: here the records of the first frame are lost with the second, which has an
  empty payload. For frames that do not make the decoder panic, the idle timeout is
  \<open>get_homeplug_netinfo_idle_timeout\<close> above.
\<close>

theorem idle_cycle_panics:
  "get_homeplug_netinfo untagged_link [0x02, 0, 0, 0, 0, 0x01] [0x00, 0xB0, 0x52, 0x00, 0x00, 0x01]
     [(5, sample_confirm), (7, empty_confirm)] = Panic IndexOutOfRange"
  by (simp add: get_homeplug_netinfo_def write_homeplug_untagged_link exec_bind_def
      time_Second_def recv_case_sample_confirm recv_case_empty_confirm)

lemma idle_cycle_sample:
  "get_homeplug_netinfo untagged_link [0x02, 0, 0, 0, 0, 0x01] [0x00, 0xB0, 0x52, 0x00, 0x00, 0x01]
     [(900000000, sample_confirm), (900000000, sample_confirm), (1000000000, sample_confirm)]
   = Returns (Some [\<lparr>Networks = [\<lparr>NetworkID = [1, 2, 3, 4, 5, 6, 7], ShortID = 1, TEI = 2, Role = 0,
                              CCoAddress = [0x00, 0xB0, 0x52, 0x00, 0x00, 0x01], CCoTEI = 3\<rparr>],
               Stations = [\<lparr>Address = [0x00, 0xB0, 0x52, 0x00, 0x00, 0x02], STEI = 4,
                              BridgedAddress = [0, 0, 0, 0, 0, 0], TxRate = 100, RxRate = 50\<rparr>]\<rparr>,
               \<lparr>Networks = [\<lparr>NetworkID = [1, 2, 3, 4, 5, 6, 7], ShortID = 1, TEI = 2, Role = 0,
                              CCoAddress = [0x00, 0xB0, 0x52, 0x00, 0x00, 0x01], CCoTEI = 3\<rparr>],
               Stations = [\<lparr>Address = [0x00, 0xB0, 0x52, 0x00, 0x00, 0x02], STEI = 4,
                              BridgedAddress = [0, 0, 0, 0, 0, 0], TxRate = 100, RxRate = 50\<rparr>]\<rparr>],
              None, 2800000000)"
  by (simp add: get_homeplug_netinfo_def write_homeplug_untagged_link exec_bind_def
      time_Second_def recv_case_sample_confirm)

end
